theory Spec2Isabelle
  imports Complex_Main "HOL-Library.Word" "HOL-Library.Monad_Syntax"
begin

unbundle bit_operations_syntax

section \<open>Bytes, machine integers and doubles\<close>

text \<open>
  The server works on raw bytes. A \<^verbatim>\<open>char\<close> is an 8-bit word, a \<^verbatim>\<open>qint32\<close>,
  an \<^verbatim>\<open>int\<close> and an \<^verbatim>\<open>unsigned int\<close> are 32-bit words (the conversions between
  them in the source keep the bits), and a \<^verbatim>\<open>double\<close> is the 64-bit pattern of its
  IEEE 754 binary64 representation: the server only copies doubles between the wire and
  the mock window, it never computes with them.
\<close>

type_synonym byte = "8 word"
type_synonym qint32 = "32 word"
type_synonym double = "64 word"

text \<open>
  The object representation of a value in memory, least significant byte first (the
  byte order of the deployment platforms), and the value a
  \<^verbatim>\<open>reinterpret_cast\<close> pointer reads back from such bytes.
\<close>

fun le_bytes :: "nat \<Rightarrow> 'a::len word \<Rightarrow> byte list" where
  "le_bytes 0 w = []"
| "le_bytes (Suc n) w = ucast w # le_bytes n (drop_bit 8 w)"

fun le_word :: "byte list \<Rightarrow> 'a::len word" where
  "le_word [] = 0"
| "le_word (b # bs) = ucast b OR push_bit 8 (le_word bs)"

definition bytes_of_qint32 :: "qint32 \<Rightarrow> byte list" where
  "bytes_of_qint32 w = le_bytes 4 w"

definition bytes_of_double :: "double \<Rightarrow> byte list" where
  "bytes_of_double d = le_bytes 8 d"

text \<open>
  The real number a finite binary64 pattern stands for (sign bit, 11 exponent bits with
  bias 1023, 52 fraction bits), and half the distance to its neighbours of the same
  exponent. A decimal literal of the source is compiled to the double nearest to it.
\<close>

definition double_value :: "double \<Rightarrow> real" where
  "double_value d =
     (let n = unat d; e = (n div 2 ^ 52) mod 2 ^ 11; m = n mod 2 ^ 52;
          magnitude = (if e = 0 then real m / 2 ^ 1074
                       else if e < 1075 then real (2 ^ 52 + m) / 2 ^ (1075 - e)
                       else real (2 ^ 52 + m) * 2 ^ (e - 1075))
      in if n div 2 ^ 63 = 1 then - magnitude else magnitude)"

definition half_ulp :: "double \<Rightarrow> real" where
  "half_ulp d =
     (let e = (unat d div 2 ^ 52) mod 2 ^ 11
      in if e = 0 then 1 / 2 ^ 1075
         else if e < 1076 then 1 / 2 ^ (1076 - e)
         else 2 ^ (e - 1076))"

text \<open>
  \<^verbatim>\<open>char* data = new char[avail]\<close> is a buffer of exactly \<open>length data\<close> bytes.
  The source reads it through casted pointers with no check; a read that leaves the
  buffer is undefined behaviour in C++ and is the value \<open>None\<close> here.
\<close>

definition read_bytes :: "byte list \<Rightarrow> nat \<Rightarrow> nat \<Rightarrow> byte list option" where
  "read_bytes data off n =
     (if off + n \<le> length data then Some (take n (drop off data)) else None)"

text \<open>\<^verbatim>\<open>*reinterpret_cast<qint32*>(&data[off])\<close>\<close>

definition read_qint32 :: "byte list \<Rightarrow> nat \<Rightarrow> qint32 option" where
  "read_qint32 data off = map_option le_word (read_bytes data off 4)"

text \<open>\<^verbatim>\<open>*reinterpret_cast<double*>(&data[off])\<close>\<close>

definition read_double :: "byte list \<Rightarrow> nat \<Rightarrow> double option" where
  "read_double data off = map_option le_word (read_bytes data off 8)"

text \<open>\<^verbatim>\<open>pose.assign(pose_data, pose_data + k)\<close> with \<open>pose_data\<close> at \<open>&data[off]\<close>\<close>

fun read_doubles :: "byte list \<Rightarrow> nat \<Rightarrow> nat \<Rightarrow> double list option" where
  "read_doubles data off 0 = Some []"
| "read_doubles data off (Suc k) =
     (case read_double data off of
        None \<Rightarrow> None
      | Some d \<Rightarrow> map_option ((#) d) (read_doubles data (off + 8) k))"

text \<open>
  \<^verbatim>\<open>std::string(&data[off], length - off)\<close>: all the bytes from \<open>off\<close> on. With
  \<open>length < off\<close> the count is negative; converted to \<^verbatim>\<open>size_t\<close> it is larger than any
  string may be, and the constructor throws \<^verbatim>\<open>std::length_error\<close> before it reads a
  byte. That is the value \<open>None\<close> here.
\<close>

definition read_string :: "byte list \<Rightarrow> nat \<Rightarrow> byte list option" where
  "read_string data off = (if off \<le> length data then Some (drop off data) else None)"

text \<open>\<^verbatim>\<open>QString(filename.c_str())\<close>: the bytes up to the first NUL.\<close>

definition QString :: "byte list \<Rightarrow> byte list" where
  "QString s = takeWhile (\<lambda>b. b \<noteq> 0) s"

section \<open>The mock main window (AutoscoperMockMainWindow.cpp)\<close>

text \<open>
  Every method of the mock prints its name and arguments with \<^verbatim>\<open>qInfo()\<close>. The
  printed lines are kept as a list of calls, so that "this method was called" is
  observable. Only \<open>setFrame\<close> and \<open>setPose\<close> change a member.
\<close>

datatype call =
    Call_setFrame qint32
  | Call_openTrial "byte list"
  | Call_load_tracking_results "byte list" bool bool bool bool bool bool qint32
  | Call_save_tracking_results "byte list" bool bool bool bool bool bool qint32
  | Call_loadFilterSettings qint32 "byte list"
  | Call_getPose qint32 qint32
  | Call_setPose "double list" qint32 qint32
  | Call_setBackground double
  | Call_getNCC qint32
  | Call_saveFullDRR
  | Call_getImageData qint32 qint32 qint32 qint32
  | Call_optimizeFrame qint32 qint32 qint32 qint32 qint32 qint32 double double qint32 qint32

record AutoscoperMockMainWindow =
  Frame :: qint32
  Pose :: "double list"
  qInfo :: "call list"

text \<open>
  The constructor pushes the six literals 0.1, 1.2, 2.3, 3.4, 4.5, 6.7; \<open>Frame\<close> is
  initialised to -1 in the class. The constants are the binary64 patterns nearest to
  the literals, as \<open>mock_constructor_Pose_values\<close> proves with \<open>double_value\<close>.
\<close>

definition mock_constructor :: AutoscoperMockMainWindow where
  "mock_constructor =
     \<lparr>Frame = - 1,
      Pose = [0x3FB999999999999A, 0x3FF3333333333333, 0x4002666666666666,
              0x400B333333333333, 0x4012000000000000, 0x401ACCCCCCCCCCCD],
      qInfo = []\<rparr>"

definition logged :: "call \<Rightarrow> AutoscoperMockMainWindow \<Rightarrow> AutoscoperMockMainWindow" where
  "logged c mw = mw\<lparr>qInfo := qInfo mw @ [c]\<rparr>"

definition setFrame :: "AutoscoperMockMainWindow \<Rightarrow> qint32 \<Rightarrow> AutoscoperMockMainWindow" where
  "setFrame mw frame = (logged (Call_setFrame frame) mw)\<lparr>Frame := frame\<rparr>"

definition openTrial :: "AutoscoperMockMainWindow \<Rightarrow> byte list \<Rightarrow> AutoscoperMockMainWindow" where
  "openTrial mw filename = logged (Call_openTrial filename) mw"

definition load_tracking_results ::
  "AutoscoperMockMainWindow \<Rightarrow> byte list \<Rightarrow> bool \<Rightarrow> bool \<Rightarrow> bool \<Rightarrow> bool \<Rightarrow> bool \<Rightarrow> bool \<Rightarrow>
   qint32 \<Rightarrow> AutoscoperMockMainWindow" where
  "load_tracking_results mw filename save_as_matrix save_as_rows save_with_commas
     convert_to_cm convert_to_rad interpolate volume =
     logged (Call_load_tracking_results filename save_as_matrix save_as_rows
       save_with_commas convert_to_cm convert_to_rad interpolate volume) mw"

definition save_tracking_results ::
  "AutoscoperMockMainWindow \<Rightarrow> byte list \<Rightarrow> bool \<Rightarrow> bool \<Rightarrow> bool \<Rightarrow> bool \<Rightarrow> bool \<Rightarrow> bool \<Rightarrow>
   qint32 \<Rightarrow> AutoscoperMockMainWindow" where
  "save_tracking_results mw filename save_as_matrix save_as_rows save_with_commas
     convert_to_cm convert_to_rad interpolate volume =
     logged (Call_save_tracking_results filename save_as_matrix save_as_rows
       save_with_commas convert_to_cm convert_to_rad interpolate volume) mw"

definition loadFilterSettings ::
  "AutoscoperMockMainWindow \<Rightarrow> qint32 \<Rightarrow> byte list \<Rightarrow> AutoscoperMockMainWindow" where
  "loadFilterSettings mw camera filename = logged (Call_loadFilterSettings camera filename) mw"

definition getPose ::
  "AutoscoperMockMainWindow \<Rightarrow> qint32 \<Rightarrow> qint32 \<Rightarrow> AutoscoperMockMainWindow \<times> double list" where
  "getPose mw volume frame = (logged (Call_getPose volume frame) mw, Pose mw)"

definition setPose ::
  "AutoscoperMockMainWindow \<Rightarrow> double list \<Rightarrow> qint32 \<Rightarrow> qint32 \<Rightarrow> AutoscoperMockMainWindow" where
  "setPose mw pose volume frame = (logged (Call_setPose pose volume frame) mw)\<lparr>Pose := pose\<rparr>"

definition setBackground :: "AutoscoperMockMainWindow \<Rightarrow> double \<Rightarrow> AutoscoperMockMainWindow" where
  "setBackground mw threshold = logged (Call_setBackground threshold) mw"

text \<open>
  \<open>getNCC\<close> returns the one correlation 0.5, whose pattern is \<open>0x3FE0000000000000\<close>.
  Its parameter \<open>xyzpr\<close>, like that of \<open>getImageData\<close>, is a pointer that the mock
  prints as an address and never reads through, so it is not a parameter here.
\<close>

definition getNCC ::
  "AutoscoperMockMainWindow \<Rightarrow> qint32 \<Rightarrow> AutoscoperMockMainWindow \<times> double list" where
  "getNCC mw volumeID = (logged (Call_getNCC volumeID) mw, [] @ [0x3FE0000000000000])"

definition saveFullDRR :: "AutoscoperMockMainWindow \<Rightarrow> AutoscoperMockMainWindow" where
  "saveFullDRR mw = logged Call_saveFullDRR mw"

definition optimizeFrame ::
  "AutoscoperMockMainWindow \<Rightarrow> qint32 \<Rightarrow> qint32 \<Rightarrow> qint32 \<Rightarrow> qint32 \<Rightarrow> qint32 \<Rightarrow> qint32 \<Rightarrow>
   double \<Rightarrow> double \<Rightarrow> qint32 \<Rightarrow> qint32 \<Rightarrow> AutoscoperMockMainWindow" where
  "optimizeFrame mw volumeID frame dframe repeats opt_method max_iter min_limit max_limit
     cf_model stall_iter =
     logged (Call_optimizeFrame volumeID frame dframe repeats opt_method max_iter min_limit
       max_limit cf_model stall_iter) mw"

subsection \<open>getImageData\<close>

text \<open>
  One pixel of the image: \<^verbatim>\<open>(unsigned char)(255 * toggle)\<close>, with the two index tests
  of the source on \<^verbatim>\<open>unsigned int\<close>.
\<close>

definition pixel :: "qint32 \<Rightarrow> qint32 \<Rightarrow> qint32 \<Rightarrow> qint32 \<Rightarrow> byte" where
  "pixel width height w_idx h_idx =
     (let width_index_right = w_idx > width div 2;
          height_index_bottom = h_idx > height div 2;
          toggle = (width_index_right \<and> height_index_bottom) \<or>
                   (\<not> width_index_right \<and> \<not> height_index_bottom)
      in if toggle then 255 else 0)"

text \<open>The inner loop over \<open>h_idx\<close> and the outer loop over \<open>w_idx\<close>, pushing onto \<open>img_Data\<close>.\<close>

function h_loop :: "qint32 \<Rightarrow> qint32 \<Rightarrow> qint32 \<Rightarrow> qint32 \<Rightarrow> byte list \<Rightarrow> byte list" where
  "h_loop width height w_idx h_idx img_Data =
     (if h_idx < height
      then h_loop width height w_idx (h_idx + 1) (img_Data @ [pixel width height w_idx h_idx])
      else img_Data)"
  by pat_completeness auto

lemma word_loop_measure:
  fixes i n :: qint32
  assumes "i < n"
  shows "unat n - unat (i + 1) < unat n - unat i"
proof -
  have "i \<noteq> - 1"
    using assms by (metis max_word_max not_le)
  then have "1 + i \<noteq> 0"
    by (metis add.commute add_eq_0_iff)
  then have "unat (1 + i) = Suc (unat i)"
    by (rule unatSuc)
  then have "unat (i + 1) = Suc (unat i)"
    by (simp add: add.commute)
  moreover have "unat i < unat n"
    using assms by (simp add: word_less_nat_alt)
  ultimately show ?thesis by arith
qed

termination h_loop
  by (relation "measure (\<lambda>(width, height, w_idx, h_idx, img_Data). unat height - unat h_idx)")
     (simp_all add: word_loop_measure)

function w_loop :: "qint32 \<Rightarrow> qint32 \<Rightarrow> qint32 \<Rightarrow> byte list \<Rightarrow> byte list" where
  "w_loop width height w_idx img_Data =
     (if w_idx < width
      then w_loop width height (w_idx + 1) (h_loop width height w_idx 0 img_Data)
      else img_Data)"
  by pat_completeness auto

termination w_loop
  by (relation "measure (\<lambda>(width, height, w_idx, img_Data). unat width - unat w_idx)")
     (simp_all add: word_loop_measure)

declare h_loop.simps [simp del]
declare w_loop.simps [simp del]

text \<open>
  \<open>width\<close> and \<open>height\<close> are reference parameters that the method only reads: the
  image has the size the caller's variables hold.
\<close>

definition getImageData ::
  "AutoscoperMockMainWindow \<Rightarrow> qint32 \<Rightarrow> qint32 \<Rightarrow> qint32 \<Rightarrow> qint32 \<Rightarrow>
   AutoscoperMockMainWindow \<times> byte list" where
  "getImageData mw volumeID camera width height =
     (logged (Call_getImageData volumeID camera width height) mw, w_loop width height 0 [])"

section \<open>The dispatcher (Socket.cpp)\<close>

text \<open>
  What stops a handler short of its \<^verbatim>\<open>return\<close>: a pointer read that leaves the
  request buffer, the exception \<^verbatim>\<open>std::length_error\<close> that the string constructor
  throws on a negative count (nothing catches it), a read of 48 bytes from a pose vector
  that holds fewer than six doubles, and a call through a null pointer.
\<close>

datatype fault = ReadPastEnd | LengthError | PoseVectorOverrun | NullPointerCall

subsection \<open>handleMessage\<close>

text \<open>
  \<open>handleMessage mw (width, height) data\<close> is the call
  \<^verbatim>\<open>handleMessage(connection, data, length)\<close> with \<open>length = length data\<close>, as
  \<open>reading\<close> calls it; \<open>mw\<close> is the object behind \<^verbatim>\<open>m_mainwindow\<close>. The result is
  the window after the call and the bytes of the one \<^verbatim>\<open>connection->write\<close>.

  \<open>width\<close> and \<open>height\<close> are what the two uninitialised locals of case 10 hold when
  the case is entered; the source never assigns them.

  Each case follows the order of the source. Cases 2, 3 and 4 cast \<open>&data[1]\<close>, build
  the file name from \<open>&data[5]\<close> and only then dereference the cast pointer: with
  fewer than four payload bytes the string constructor throws and nothing is read. The
  other cases with fields read them through their pointers, past the end of the buffer
  when the payload is short.
\<close>

definition handleMessage ::
  "AutoscoperMockMainWindow \<Rightarrow> qint32 \<times> qint32 \<Rightarrow> byte list \<Rightarrow>
   fault + (AutoscoperMockMainWindow \<times> byte list)" where
  "handleMessage mw uninitialised data =
    (case read_bytes data 0 1 of
       None \<Rightarrow> Inl ReadPastEnd
     | Some first \<Rightarrow>
       let message_type = hd first in
       if message_type = 1 then
         (case read_string data 1 of
            None \<Rightarrow> Inl LengthError
          | Some filename \<Rightarrow> Inr (openTrial mw (QString filename), [1]))
       else if message_type = 2 then
         (case read_string data 5 of
            None \<Rightarrow> Inl LengthError
          | Some filename \<Rightarrow>
              (case read_qint32 data 1 of
                 None \<Rightarrow> Inl ReadPastEnd
               | Some volume \<Rightarrow>
                   Inr (load_tracking_results mw (QString filename)
                          True True True False False False volume, [2])))
       else if message_type = 3 then
         (case read_string data 5 of
            None \<Rightarrow> Inl LengthError
          | Some filename \<Rightarrow>
              (case read_qint32 data 1 of
                 None \<Rightarrow> Inl ReadPastEnd
               | Some volume \<Rightarrow>
                   Inr (save_tracking_results mw (QString filename)
                          True True True False False False volume, [3])))
       else if message_type = 4 then
         (case read_string data 5 of
            None \<Rightarrow> Inl LengthError
          | Some filename \<Rightarrow>
              (case read_qint32 data 1 of
                 None \<Rightarrow> Inl ReadPastEnd
               | Some camera \<Rightarrow>
                   Inr (loadFilterSettings mw camera (QString filename), [4])))
       else if message_type = 5 then
         (case read_qint32 data 1 of
            None \<Rightarrow> Inl ReadPastEnd
          | Some frame \<Rightarrow> Inr (setFrame mw frame, [5]))
       else if message_type = 6 then
         (case do { volume \<leftarrow> read_qint32 data 1;
                    frame \<leftarrow> read_qint32 data 5;
                    Some (volume, frame) } of
            None \<Rightarrow> Inl ReadPastEnd
          | Some (volume, frame) \<Rightarrow>
              (case getPose mw volume frame of
                 (mw', pose) \<Rightarrow>
                   if length pose < 6 then Inl PoseVectorOverrun
                   else Inr (mw', [6] @ concat (map bytes_of_double (take 6 pose)))))
       else if message_type = 7 then
         (case do { volume \<leftarrow> read_qint32 data 1;
                    frame \<leftarrow> read_qint32 data 5;
                    pose \<leftarrow> read_doubles data 9 6;
                    Some (volume, frame, pose) } of
            None \<Rightarrow> Inl ReadPastEnd
          | Some (volume, frame, pose) \<Rightarrow> Inr (setPose mw pose volume frame, [7]))
       else if message_type = 8 then
         (case do { volume \<leftarrow> read_qint32 data 1;
                    pose \<leftarrow> read_doubles data 5 6;
                    Some (volume, pose) } of
            None \<Rightarrow> Inl ReadPastEnd
          | Some (volume, pose) \<Rightarrow>
              (case getNCC mw volume of
                 (mw', ncc) \<Rightarrow>
                   Inr (mw', [8] @ [of_nat (length ncc)] @ concat (map bytes_of_double ncc))))
       else if message_type = 9 then
         (case read_double data 1 of
            None \<Rightarrow> Inl ReadPastEnd
          | Some threshold \<Rightarrow> Inr (setBackground mw threshold, [9]))
       else if message_type = 10 then
         (case do { volume \<leftarrow> read_qint32 data 1;
                    camera \<leftarrow> read_qint32 data 5;
                    pose \<leftarrow> read_doubles data 9 6;
                    Some (volume, camera, pose) } of
            None \<Rightarrow> Inl ReadPastEnd
          | Some (volume, camera, pose) \<Rightarrow>
              (case uninitialised of
                 (width, height) \<Rightarrow>
                   (case getImageData mw volume camera width height of
                      (mw', img_Data) \<Rightarrow>
                        Inr (mw', [10] @ bytes_of_qint32 width @ bytes_of_qint32 height
                                   @ img_Data))))
       else if message_type = 11 then
         (case do { volumeID \<leftarrow> read_qint32 data 1;
                    frame \<leftarrow> read_qint32 data 5;
                    repeats \<leftarrow> read_qint32 data 9;
                    max_iter \<leftarrow> read_qint32 data 13;
                    min_limit \<leftarrow> read_double data 17;
                    max_limit \<leftarrow> read_double data 25;
                    stall_iter \<leftarrow> read_qint32 data 33;
                    Some (volumeID, frame, repeats, max_iter, min_limit, max_limit,
                          stall_iter) } of
            None \<Rightarrow> Inl ReadPastEnd
          | Some (volumeID, frame, repeats, max_iter, min_limit, max_limit, stall_iter) \<Rightarrow>
              Inr (optimizeFrame mw volumeID frame 1 repeats 0 max_iter min_limit max_limit
                     0 stall_iter, [11]))
       else if message_type = 12 then
         Inr (saveFullDRR mw, [12])
       else
         Inr (mw, [0]))"

text \<open>
  The number of payload bytes (bytes after the opcode) that the fixed fields of each case
  occupy, read off the offsets of the casts: the last field of case 11 is the
  \<^verbatim>\<open>qint32\<close> at \<open>data[33]\<close>, so 36 payload bytes, and so on.
\<close>

definition required_payload :: "byte \<Rightarrow> nat" where
  "required_payload opcode =
     (if opcode = 2 \<or> opcode = 3 \<or> opcode = 4 \<or> opcode = 5 then 4
      else if opcode = 6 \<or> opcode = 9 then 8
      else if opcode = 7 \<or> opcode = 10 then 56
      else if opcode = 8 then 52
      else if opcode = 11 then 36
      else 0)"

subsection \<open>Connections\<close>

text \<open>
  A \<^verbatim>\<open>QTcpSocket*\<close> is the identity of a connection object. Besides the two members of
  \<open>Socket\<close>, the state holds what the handlers do to Qt objects:
  \<^item> \<open>signals_connected\<close>: the sockets whose \<open>disconnected\<close> and \<open>readyRead\<close> signals
    \<open>createNewConnection\<close> has connected to the slots of this \<open>Socket\<close>, until
    \<open>deleteLater\<close> destroys the object (and with it its connections);
  \<^item> \<open>bytesAvailable\<close>: the bytes each socket has received and not yet handed out;
  \<^item> \<open>written\<close>: every \<^verbatim>\<open>connection->write\<close>, in order.
\<close>

type_synonym QTcpSocket = nat

record Socket =
  clientConnections :: "QTcpSocket list"
  m_mainwindow :: AutoscoperMockMainWindow
  signals_connected :: "QTcpSocket set"
  bytesAvailable :: "QTcpSocket \<Rightarrow> byte list"
  written :: "(QTcpSocket \<times> byte list) list"

definition Socket_constructor :: "AutoscoperMockMainWindow \<Rightarrow> Socket" where
  "Socket_constructor mainwindow =
     \<lparr>clientConnections = [], m_mainwindow = mainwindow, signals_connected = {},
      bytesAvailable = (\<lambda>c. []), written = []\<rparr>"

text \<open>\<open>clientConnection\<close> is the object \<^verbatim>\<open>nextPendingConnection()\<close> returns.\<close>

definition createNewConnection :: "Socket \<Rightarrow> QTcpSocket \<Rightarrow> Socket" where
  "createNewConnection s clientConnection =
     s\<lparr>signals_connected := insert clientConnection (signals_connected s),
       clientConnections := clientConnections s @ [clientConnection]\<rparr>"

text \<open>
  \<open>sender\<close> is the result of \<^verbatim>\<open>dynamic_cast<QTcpSocket *>(sender())\<close>, \<open>None\<close> for a
  null pointer. \<open>deleteConnection\<close> calls \<open>deleteLater\<close> on it outside the null test.
\<close>

definition deleteConnection :: "Socket \<Rightarrow> QTcpSocket option \<Rightarrow> fault + Socket" where
  "deleteConnection s sender =
     (case sender of
        None \<Rightarrow> Inl NullPointerCall
      | Some obj \<Rightarrow>
          Inr (s\<lparr>clientConnections := removeAll obj (clientConnections s),
                 signals_connected := signals_connected s - {obj}\<rparr>))"

definition reading :: "Socket \<Rightarrow> QTcpSocket option \<Rightarrow> qint32 \<times> qint32 \<Rightarrow> fault + Socket" where
  "reading s sender uninitialised =
     (case sender of
        None \<Rightarrow> Inr s
      | Some obj \<Rightarrow>
          let data = bytesAvailable s obj in
          (case handleMessage (m_mainwindow s) uninitialised data of
             Inl f \<Rightarrow> Inl f
           | Inr (mw', reply) \<Rightarrow>
               Inr (s\<lparr>m_mainwindow := mw',
                      bytesAvailable := (bytesAvailable s)(obj := []),
                      written := written s @ [(obj, reply)]\<rparr>)))"

text \<open>
  What happens to a \<open>Socket\<close>: the server announces a new connection, a socket emits
  \<open>disconnected\<close> or \<open>readyRead\<close>, or bytes arrive from the network on a socket.
  The slots run one at a time, from the event loop. Qt runs a slot for a signal only
  while the emitting object is connected to it: from the two \<^verbatim>\<open>connect\<close> calls of
  \<open>createNewConnection\<close> until the object is destroyed, which
  \<^verbatim>\<open>obj->deleteLater()\<close> schedules for the return to the event loop, before the next
  signal is handled. The slots themselves test nothing of this: \<open>reading\<close> handles
  whatever socket is its sender.
\<close>

datatype signal =
    NewConnection QTcpSocket
  | Disconnected QTcpSocket
  | ReadyRead QTcpSocket "qint32 \<times> qint32"
  | BytesArrive QTcpSocket "byte list"

fun emit :: "Socket \<Rightarrow> signal \<Rightarrow> fault + Socket" where
  "emit s (NewConnection c) = Inr (createNewConnection s c)"
| "emit s (Disconnected c) =
     (if c \<in> signals_connected s then deleteConnection s (Some c) else Inr s)"
| "emit s (ReadyRead c uninitialised) =
     (if c \<in> signals_connected s then reading s (Some c) uninitialised else Inr s)"
| "emit s (BytesArrive c bs) =
     Inr (s\<lparr>bytesAvailable := (bytesAvailable s)(c := bytesAvailable s c @ bs)\<rparr>)"

fun run :: "Socket \<Rightarrow> signal list \<Rightarrow> fault + Socket" where
  "run s [] = Inr s"
| "run s (e # es) = (case emit s e of Inl f \<Rightarrow> Inl f | Inr s' \<Rightarrow> run s' es)"

text \<open>
  How often a run takes \<open>c\<close> out of \<open>clientConnections\<close>: the steps from a state that
  lists \<open>c\<close> to one that does not.
\<close>

fun closings :: "QTcpSocket \<Rightarrow> Socket \<Rightarrow> signal list \<Rightarrow> nat" where
  "closings c s [] = 0"
| "closings c s (e # es) =
     (case emit s e of
        Inl f \<Rightarrow> 0
      | Inr s' \<Rightarrow>
          (if c \<in> set (clientConnections s) \<and> c \<notin> set (clientConnections s') then 1 else 0)
          + closings c s' es)"

text \<open>The replies written on \<open>c\<close> so far.\<close>

definition replies_on :: "QTcpSocket \<Rightarrow> Socket \<Rightarrow> byte list list" where
  "replies_on c s = map snd (filter (\<lambda>w. fst w = c) (written s))"

subsection \<open>Calls of the mock window as values\<close>

text \<open>
  \<open>perform c mw\<close> is the window after the method call that \<open>c\<close> names, so that
  "every method but \<open>setPose\<close>" and "any later calls" can be quantified over.
\<close>

fun perform :: "call \<Rightarrow> AutoscoperMockMainWindow \<Rightarrow> AutoscoperMockMainWindow" where
  "perform (Call_setFrame frame) mw = setFrame mw frame"
| "perform (Call_openTrial filename) mw = openTrial mw filename"
| "perform (Call_load_tracking_results filename m r c cm rad i volume) mw =
     load_tracking_results mw filename m r c cm rad i volume"
| "perform (Call_save_tracking_results filename m r c cm rad i volume) mw =
     save_tracking_results mw filename m r c cm rad i volume"
| "perform (Call_loadFilterSettings camera filename) mw = loadFilterSettings mw camera filename"
| "perform (Call_getPose volume frame) mw = fst (getPose mw volume frame)"
| "perform (Call_setPose pose volume frame) mw = setPose mw pose volume frame"
| "perform (Call_setBackground threshold) mw = setBackground mw threshold"
| "perform (Call_getNCC volumeID) mw = fst (getNCC mw volumeID)"
| "perform Call_saveFullDRR mw = saveFullDRR mw"
| "perform (Call_getImageData volumeID camera width height) mw =
     fst (getImageData mw volumeID camera width height)"
| "perform (Call_optimizeFrame volumeID frame dframe repeats opt_method max_iter min_limit
      max_limit cf_model stall_iter) mw =
     optimizeFrame mw volumeID frame dframe repeats opt_method max_iter min_limit max_limit
       cf_model stall_iter"

fun is_setPose :: "call \<Rightarrow> bool" where
  "is_setPose (Call_setPose pose volume frame) = True"
| "is_setPose other = False"

section \<open>Reading the request buffer\<close>

lemma length_le_bytes: "length (le_bytes n w) = n"
  by (induction n arbitrary: w) auto

lemma le_bytes_numeral:
  "le_bytes (numeral k) w = ucast w # le_bytes (pred_numeral k) (drop_bit 8 w)"
  by (simp add: numeral_eq_Suc)

lemma le_word_le_bytes:
  "le_word (le_bytes n (w::'a::len word)) = (take_bit (8 * n) w :: 'a word)"
proof (induction n arbitrary: w)
  case 0
  show ?case by simp
next
  case (Suc n)
  have "ucast (ucast w :: byte) OR push_bit 8 (take_bit (8 * n) (drop_bit 8 w))
          = take_bit (8 * Suc n) w"
    by (rule bit_word_eqI) (auto simp: bit_simps)
  then show ?case by (simp add: Suc)
qed

lemma read_bytes_Cons: "read_bytes (b # data) (Suc off) n = read_bytes data off n"
  by (simp add: read_bytes_def)

lemma read_opcode: "read_bytes (opcode # payload) 0 (Suc 0) = Some [opcode]"
  by (simp add: read_bytes_def)

lemma read_qint32_None_iff: "read_qint32 data off = None \<longleftrightarrow> length data < off + 4"
  by (auto simp: read_qint32_def read_bytes_def)

lemma read_double_None_iff: "read_double data off = None \<longleftrightarrow> length data < off + 8"
  by (auto simp: read_double_def read_bytes_def)

lemma read_string_None_iff: "read_string data off = None \<longleftrightarrow> length data < off"
  by (auto simp: read_string_def)


lemma read_double_SomeD: "read_double data off = Some v \<Longrightarrow> off + 8 \<le> length data"
  by (auto simp: read_double_def read_bytes_def split: if_splits)


lemma read_doubles_None_iff:
  "read_doubles data off k = None \<longleftrightarrow> 0 < k \<and> length data < off + 8 * k"
proof (induction k arbitrary: off)
  case 0
  show ?case by simp
next
  case (Suc k)
  show ?case
  proof (cases "read_double data off")
    case None
    then have "length data < off + 8"
      by (simp add: read_double_None_iff)
    with None show ?thesis by simp
  next
    case (Some d)
    then have le: "off + 8 \<le> length data"
      by (rule read_double_SomeD)
    have step: "read_doubles data off (Suc k) = None \<longleftrightarrow> read_doubles data (off + 8) k = None"
      by (simp add: Some)
    have "read_doubles data (off + 8) k = None \<longleftrightarrow> 0 < k \<and> length data < off + 8 + 8 * k"
      by (rule Suc.IH)
    with le show ?thesis
      unfolding step by (cases "k = 0") auto
  qed
qed

lemma read_doubles_length: "read_doubles data off k = Some p \<Longrightarrow> length p = k"
proof (induction k arbitrary: off p)
  case 0
  then show ?case by simp
next
  case (Suc k)
  from Suc.prems obtain d ds where "read_doubles data (off + 8) k = Some ds" and "p = d # ds"
    by (auto split: option.splits)
  with Suc.IH show ?case by auto
qed


lemmas read_None_iffs =
  read_qint32_None_iff read_double_None_iff read_string_None_iff read_doubles_None_iff


section \<open>Replies of the dispatcher\<close>

lemma handleMessage_ack:
  assumes "opcode \<in> {1, 2, 3, 4, 5, 7, 9, 11, 12}"
    and "required_payload opcode \<le> length payload"
  shows "\<exists>mw'. handleMessage mw u (opcode # payload) = Inr (mw', [opcode])"
  using assms
  apply (elim insertE emptyE)
  apply (auto simp: handleMessage_def read_opcode read_None_iffs required_payload_def
              split: option.splits Option.bind_splits)
  done

lemma handleMessage_unrecognised:
  assumes "opcode = 0 \<or> 12 < opcode"
  shows "handleMessage mw u (opcode # payload) = Inr (mw, [0])"
  using assms by (auto simp: handleMessage_def read_opcode)








text \<open>
  C3. A message with opcode 1, 2, 3, 4, 5, 7, 9, 11 or 12 whose payload holds the fixed
  fields of the opcode is answered with exactly one byte, the opcode: the call returns
  that reply, \<open>reading\<close> writes it on the connection the bytes came from, and it is
  neither empty nor the zero byte.
\<close>

theorem acknowledgement_echo:
  assumes "opcode \<in> {1, 2, 3, 4, 5, 7, 9, 11, 12}"
    and "required_payload opcode \<le> length payload"
    and "bytesAvailable s c = opcode # payload"
  shows "(\<exists>mw'. handleMessage (m_mainwindow s) u (opcode # payload) = Inr (mw', [opcode]))
         \<and> (\<exists>s'. reading s (Some c) u = Inr s' \<and> written s' = written s @ [(c, [opcode])])
         \<and> [opcode] \<noteq> [] \<and> [opcode] \<noteq> [0]"
proof -
  from assms(1,2) obtain mw'
    where ack: "handleMessage (m_mainwindow s) u (opcode # payload) = Inr (mw', [opcode])"
    using handleMessage_ack by blast
  then have "\<exists>s'. reading s (Some c) u = Inr s' \<and> written s' = written s @ [(c, [opcode])]"
    by (simp add: reading_def assms(3))
  moreover from assms(1) have "opcode \<noteq> 0" by auto
  ultimately show ?thesis using ack by auto
qed

text \<open>Opcode 5 (set frame) with the frame 7.\<close>

theorem acknowledgement_echo_witness:
  "(5 :: byte) \<in> {1, 2, 3, 4, 5, 7, 9, 11, 12}
   \<and> required_payload 5 \<le> length [7, 0, 0, 0 :: byte]
   \<and> (\<exists>mw'. handleMessage mock_constructor (0, 0) [5, 7, 0, 0, 0] = Inr (mw', [5]))
   \<and> (\<exists>s'. reading ((Socket_constructor mock_constructor)
                        \<lparr>bytesAvailable := (\<lambda>c. [])(0 := [5, 7, 0, 0, 0])\<rparr>) (Some 0) (0, 0) = Inr s'
             \<and> written s' = [(0, [5])])"
  using acknowledgement_echo [of 5 "[7, 0, 0, 0]"
      "(Socket_constructor mock_constructor)\<lparr>bytesAvailable := (\<lambda>c. [])(0 := [5, 7, 0, 0, 0])\<rparr>"
      0 "(0, 0)"]
  by (simp add: required_payload_def Socket_constructor_def)

text \<open>
  C4. A message whose opcode is 0 or greater than 12 is answered with the single zero
  byte, whatever the payload. The mock window is left as it was (no method was called:
  its \<open>qInfo\<close> lines are the same), and the connection stays in \<open>clientConnections\<close>
  with its signals connected.
\<close>

theorem unrecognised_opcode:
  assumes "opcode = 0 \<or> 12 < opcode"
    and "bytesAvailable s c = opcode # payload"
  shows "handleMessage (m_mainwindow s) u (opcode # payload) = Inr (m_mainwindow s, [0])
         \<and> (\<exists>s'. reading s (Some c) u = Inr s'
                \<and> written s' = written s @ [(c, [0])]
                \<and> m_mainwindow s' = m_mainwindow s
                \<and> clientConnections s' = clientConnections s
                \<and> signals_connected s' = signals_connected s)"
proof -
  from assms(1)
  have "handleMessage (m_mainwindow s) u (opcode # payload) = Inr (m_mainwindow s, [0])"
    by (rule handleMessage_unrecognised)
  then show ?thesis
    by (simp add: reading_def assms(2))
qed

text \<open>Opcode 200 with two payload bytes, on a connection that was accepted.\<close>

theorem unrecognised_opcode_witness:
  "((200 :: byte) = 0 \<or> 12 < (200 :: byte))
   \<and> handleMessage mock_constructor (0, 0) [200, 1, 2] = Inr (mock_constructor, [0])
   \<and> (\<exists>s'. reading ((createNewConnection (Socket_constructor mock_constructor) 0)
                        \<lparr>bytesAvailable := (\<lambda>c. [])(0 := [200, 1, 2])\<rparr>) (Some 0) (0, 0) = Inr s'
             \<and> written s' = [(0, [0])]
             \<and> m_mainwindow s' = mock_constructor
             \<and> clientConnections s' = [0]
             \<and> signals_connected s' = {0})"
  using unrecognised_opcode [of 200
      "(createNewConnection (Socket_constructor mock_constructor) 0)
         \<lparr>bytesAvailable := (\<lambda>c. [])(0 := [200, 1, 2])\<rparr>" 0 "[1, 2]" "(0, 0)"]
  by (simp add: Socket_constructor_def createNewConnection_def)

section \<open>Framing\<close>

lemma reading_Some:
  "reading s (Some c) u =
     (case handleMessage (m_mainwindow s) u (bytesAvailable s c) of
        Inl f \<Rightarrow> Inl f
      | Inr (mw', reply) \<Rightarrow>
          Inr (s\<lparr>m_mainwindow := mw',
                 bytesAvailable := (bytesAvailable s)(c := []),
                 written := written s @ [(c, reply)]\<rparr>))"
  by (simp add: reading_def)

text \<open>
  C2. One \<open>readyRead\<close> is one message. On a connected socket with nothing pending,
  when the bytes \<open>opcode # payload\<close> arrive and the socket signals \<open>readyRead\<close>, the
  slot hands all of them to one call of \<open>handleMessage\<close> (first byte the opcode, the
  rest the payload), writes its one reply and leaves no byte in the socket. Nothing is
  kept between reads: when more bytes arrive and a second \<open>readyRead\<close> follows, they
  are handled as a message of their own, first byte the opcode, never joined to the
  earlier bytes. And a read takes all the bytes that are there: two arrivals before one
  \<open>readyRead\<close> are one message.
\<close>

theorem one_read_one_message:
  assumes "c \<in> signals_connected s" and "bytesAvailable s c = []"
    and "chunk1 = opcode # payload"
  shows "run s [BytesArrive c chunk1, ReadyRead c u1] =
           (case handleMessage (m_mainwindow s) u1 (opcode # payload) of
              Inl f \<Rightarrow> Inl f
            | Inr (mw1, reply1) \<Rightarrow>
                Inr (s\<lparr>m_mainwindow := mw1, written := written s @ [(c, reply1)]\<rparr>))
         \<and> run s [BytesArrive c chunk1, ReadyRead c u1, BytesArrive c chunk2, ReadyRead c u2] =
           (case handleMessage (m_mainwindow s) u1 chunk1 of
              Inl f \<Rightarrow> Inl f
            | Inr (mw1, reply1) \<Rightarrow>
                (case handleMessage mw1 u2 chunk2 of
                   Inl f \<Rightarrow> Inl f
                 | Inr (mw2, reply2) \<Rightarrow>
                     Inr (s\<lparr>m_mainwindow := mw2,
                            written := written s @ [(c, reply1), (c, reply2)]\<rparr>)))
         \<and> run s [BytesArrive c chunk1, BytesArrive c chunk2, ReadyRead c u1] =
           (case handleMessage (m_mainwindow s) u1 (chunk1 @ chunk2) of
              Inl f \<Rightarrow> Inl f
            | Inr (mw1, reply1) \<Rightarrow>
                Inr (s\<lparr>m_mainwindow := mw1, written := written s @ [(c, reply1)]\<rparr>))"
proof -
  have idem: "(bytesAvailable s)(c := []) = bytesAvailable s"
    using assms(2) by (metis fun_upd_triv)
  show ?thesis
    using assms(1,2)
    by (auto simp: reading_Some idem assms(3) split: sum.splits)
qed


text \<open>
  The request "open trial ab" cut after the \<open>a\<close>: the trial \<open>a\<close> is opened, and the
  byte \<open>b\<close> (98) is then taken for an opcode and answered with the zero byte. Arriving
  before one \<open>readyRead\<close>, the same bytes open the trial \<open>ab\<close>.
\<close>

theorem one_read_one_message_witness:
  "(0 :: QTcpSocket) \<in> signals_connected (createNewConnection (Socket_constructor mock_constructor) 0)
   \<and> bytesAvailable (createNewConnection (Socket_constructor mock_constructor) 0) 0 = []
   \<and> run (createNewConnection (Socket_constructor mock_constructor) 0)
         [BytesArrive 0 [1, 97], ReadyRead 0 (0, 0), BytesArrive 0 [98], ReadyRead 0 (0, 0)] =
       Inr ((createNewConnection (Socket_constructor mock_constructor) 0)
              \<lparr>m_mainwindow := openTrial mock_constructor [97],
                written := [(0, [1]), (0, [0])]\<rparr>)
   \<and> run (createNewConnection (Socket_constructor mock_constructor) 0)
         [BytesArrive 0 [1, 97], BytesArrive 0 [98], ReadyRead 0 (0, 0)] =
       Inr ((createNewConnection (Socket_constructor mock_constructor) 0)
              \<lparr>m_mainwindow := openTrial mock_constructor [97, 98],
                written := [(0, [1])]\<rparr>)"
  using one_read_one_message [where c = 0
      and s = "createNewConnection (Socket_constructor mock_constructor) 0"
      and ?chunk1.0 = "[1, 97]" and opcode = 1 and payload = "[97]" and ?u1.0 = "(0, 0)"
      and ?chunk2.0 = "[98]" and ?u2.0 = "(0, 0)"]
  by (simp add: Socket_constructor_def createNewConnection_def handleMessage_def
        read_bytes_def read_string_def QString_def)

section \<open>Poses and correlations on the wire\<close>

lemma length_bytes_of_qint32: "length (bytes_of_qint32 v) = 4"
  by (simp add: bytes_of_qint32_def length_le_bytes)

lemma length_bytes_of_double: "length (bytes_of_double d) = 8"
  by (simp add: bytes_of_double_def length_le_bytes)

lemma le_word_bytes_of_qint32: "le_word (bytes_of_qint32 v) = v"
  unfolding bytes_of_qint32_def le_word_le_bytes by (simp add: take_bit_word_eq_self)

lemma le_word_bytes_of_double: "le_word (bytes_of_double d) = d"
  unfolding bytes_of_double_def le_word_le_bytes by (simp add: take_bit_word_eq_self)

lemma read_bytes_at:
  "length bs = n \<Longrightarrow> read_bytes (pre @ bs @ post) (length pre) n = Some bs"
  by (simp add: read_bytes_def)

lemma read_qint32_at:
  "read_qint32 (pre @ bytes_of_qint32 v @ post) (length pre) = Some v"
  by (simp add: read_qint32_def read_bytes_at length_bytes_of_qint32 le_word_bytes_of_qint32)

lemma read_double_at:
  "read_double (pre @ bytes_of_double d @ post) (length pre) = Some d"
  by (simp add: read_double_def read_bytes_at length_bytes_of_double le_word_bytes_of_double)

lemma read_doubles_at:
  "read_doubles (pre @ concat (map bytes_of_double p) @ post) (length pre) (length p) = Some p"
proof (induction p arbitrary: pre)
  case Nil
  show ?case by simp
next
  case (Cons d p)
  have "read_double (pre @ bytes_of_double d @ (concat (map bytes_of_double p) @ post)) (length pre)
          = Some d"
    by (rule read_double_at)
  moreover
  have "read_doubles ((pre @ bytes_of_double d) @ concat (map bytes_of_double p) @ post)
          (length (pre @ bytes_of_double d)) (length p) = Some p"
    by (rule Cons.IH)
  ultimately show ?case
    by (simp add: length_bytes_of_double)
qed

lemma length_concat_doubles: "length (concat (map bytes_of_double p)) = 8 * length p"
  by (induction p) (simp_all add: length_bytes_of_double)

text \<open>
  C5. For every pose \<open>p\<close> of six doubles, every volume \<open>v\<close> and every frame \<open>f\<close>: the
  opcode 7 request that carries them is acknowledged and stores \<open>p\<close>, and the opcode 6
  request for \<open>(v, f)\<close> that follows is answered with the byte 6 and the same 48 bytes
  that encoded \<open>p\<close>. Doubles are bit patterns here, so equal means equal bit for bit.
\<close>

theorem setPose_getPose_roundtrip:
  assumes "length p = 6"
  shows "handleMessage mw u
           (7 # bytes_of_qint32 v @ bytes_of_qint32 f @ concat (map bytes_of_double p))
           = Inr (setPose mw p v f, [7])
         \<and> handleMessage (setPose mw p v f) u' (6 # bytes_of_qint32 v @ bytes_of_qint32 f)
           = Inr (logged (Call_getPose v f) (setPose mw p v f),
                  6 # concat (map bytes_of_double p))
         \<and> snd (getPose (setPose mw p v f) v f) = p"
proof -
  let ?set = "7 # bytes_of_qint32 v @ bytes_of_qint32 f @ concat (map bytes_of_double p)"
  let ?get = "6 # bytes_of_qint32 v @ bytes_of_qint32 f"
  have v7: "read_qint32 ?set (Suc 0) = Some v"
    using read_qint32_at [of "[7]" v "bytes_of_qint32 f @ concat (map bytes_of_double p)"]
    by simp
  have f7: "read_qint32 ?set 5 = Some f"
    using read_qint32_at [of "7 # bytes_of_qint32 v" f "concat (map bytes_of_double p)"]
    by (simp add: length_bytes_of_qint32)
  have p7: "read_doubles ?set 9 6 = Some p"
    using read_doubles_at [of "7 # bytes_of_qint32 v @ bytes_of_qint32 f" p "[]"] assms
    by (simp add: length_bytes_of_qint32)
  have v6: "read_qint32 ?get (Suc 0) = Some v"
    using read_qint32_at [of "[6]" v "bytes_of_qint32 f"] by simp
  have f6: "read_qint32 ?get 5 = Some f"
    using read_qint32_at [of "6 # bytes_of_qint32 v" f "[]"]
    by (simp add: length_bytes_of_qint32)
  have set: "handleMessage mw u ?set = Inr (setPose mw p v f, [7])"
    by (simp add: handleMessage_def read_opcode v7 f7 p7)
  have pose: "Pose (setPose mw p v f) = p"
    by (simp add: setPose_def logged_def)
  have get: "handleMessage (setPose mw p v f) u' ?get
          = Inr (logged (Call_getPose v f) (setPose mw p v f), 6 # concat (map bytes_of_double p))"
    by (simp add: handleMessage_def read_opcode v6 f6 getPose_def pose assms)
  show ?thesis
    using set get by (simp add: getPose_def pose)
qed

text \<open>The pose with the bit patterns 1 to 6, volume 2, frame 3.\<close>

theorem setPose_getPose_roundtrip_witness:
  "length (Pose mock_constructor) = 6
   \<and> handleMessage mock_constructor (0, 0)
           (7 # bytes_of_qint32 2 @ bytes_of_qint32 3 @ concat (map bytes_of_double [1, 2, 3, 4, 5, 6]))
           = Inr (setPose mock_constructor [1, 2, 3, 4, 5, 6] 2 3, [7])
   \<and> handleMessage (setPose mock_constructor [1, 2, 3, 4, 5, 6] 2 3) (0, 0)
           (6 # bytes_of_qint32 2 @ bytes_of_qint32 3)
           = Inr (logged (Call_getPose 2 3) (setPose mock_constructor [1, 2, 3, 4, 5, 6] 2 3),
                  6 # concat (map bytes_of_double [1, 2, 3, 4, 5, 6]))"
  using setPose_getPose_roundtrip [of "[1, 2, 3, 4, 5, 6]" mock_constructor "(0, 0)" 2 3 "(0, 0)"]
  by (simp add: mock_constructor_def)
lemma mock_constructor_Pose_values:
  "list_all2 (\<lambda>d x. \<bar>double_value d - x\<bar> < half_ulp d) (Pose mock_constructor)
     [1 / 10, 12 / 10, 23 / 10, 34 / 10, 45 / 10, 67 / 10]"
  by (simp add: mock_constructor_def double_value_def half_ulp_def)

text \<open>
  C6. The request \<open>06 00 00 00 00 00 00 00 00\<close> to the window as its constructor
  leaves it is answered with the byte 6 and the 48 bytes below: the six doubles of
  \<open>Pose\<close>, each least significant byte first, in order; and these six doubles are the
  doubles nearest to 0.1, 1.2, 2.3, 3.4, 4.5 and 6.7.
\<close>

theorem getPose_initial_reply:
  "handleMessage mock_constructor u [6, 0, 0, 0, 0, 0, 0, 0, 0] =
     Inr (logged (Call_getPose 0 0) mock_constructor,
          [6, 0x9A, 0x99, 0x99, 0x99, 0x99, 0x99, 0xB9, 0x3F,
              0x33, 0x33, 0x33, 0x33, 0x33, 0x33, 0xF3, 0x3F,
              0x66, 0x66, 0x66, 0x66, 0x66, 0x66, 0x02, 0x40,
              0x33, 0x33, 0x33, 0x33, 0x33, 0x33, 0x0B, 0x40,
              0x00, 0x00, 0x00, 0x00, 0x00, 0x00, 0x12, 0x40,
              0xCD, 0xCC, 0xCC, 0xCC, 0xCC, 0xCC, 0x1A, 0x40])
   \<and> handleMessage mock_constructor u [6, 0, 0, 0, 0, 0, 0, 0, 0] =
     Inr (logged (Call_getPose 0 0) mock_constructor,
          6 # concat (map bytes_of_double (Pose mock_constructor)))
   \<and> list_all2 (\<lambda>d x. \<bar>double_value d - x\<bar> < half_ulp d) (Pose mock_constructor)
         [1 / 10, 12 / 10, 23 / 10, 34 / 10, 45 / 10, 67 / 10]"
proof (intro conjI)
  show "handleMessage mock_constructor u [6, 0, 0, 0, 0, 0, 0, 0, 0] =
     Inr (logged (Call_getPose 0 0) mock_constructor,
          6 # concat (map bytes_of_double (Pose mock_constructor)))"
    by (simp add: handleMessage_def read_bytes_def read_qint32_def getPose_def
        mock_constructor_def logged_def)
  then show "handleMessage mock_constructor u [6, 0, 0, 0, 0, 0, 0, 0, 0] =
     Inr (logged (Call_getPose 0 0) mock_constructor,
          [6, 0x9A, 0x99, 0x99, 0x99, 0x99, 0x99, 0xB9, 0x3F,
              0x33, 0x33, 0x33, 0x33, 0x33, 0x33, 0xF3, 0x3F,
              0x66, 0x66, 0x66, 0x66, 0x66, 0x66, 0x02, 0x40,
              0x33, 0x33, 0x33, 0x33, 0x33, 0x33, 0x0B, 0x40,
              0x00, 0x00, 0x00, 0x00, 0x00, 0x00, 0x12, 0x40,
              0xCD, 0xCC, 0xCC, 0xCC, 0xCC, 0xCC, 0x1A, 0x40])"
    by (simp add: mock_constructor_def bytes_of_double_def le_bytes_numeral)
  show "list_all2 (\<lambda>d x. \<bar>double_value d - x\<bar> < half_ulp d) (Pose mock_constructor)
         [1 / 10, 12 / 10, 23 / 10, 34 / 10, 45 / 10, 67 / 10]"
    by (rule mock_constructor_Pose_values)
qed

lemma bytes_of_half: "bytes_of_double 0x3FE0000000000000 = [0, 0, 0, 0, 0, 0, 0xE0, 0x3F]"
  by (simp add: bytes_of_double_def le_bytes_numeral)

lemma le_word_zeros: "le_word (replicate n 0) = 0"
  by (induction n) simp_all

text \<open>
  C7. An opcode 8 request whose payload holds the volume and the six doubles (52 bytes)
  is answered with the byte 8, then one byte holding the number of correlations
  \<open>getNCC\<close> returned, then eight bytes for each of them, in order. The mock returns
  one correlation, 0.5, so the reply is the ten bytes \<open>08 01 00 00 00 00 00 00 E0 3F\<close>.
\<close>

theorem correlation_reply:
  assumes "52 \<le> length payload"
  shows "\<exists>volume mw' ncc.
           read_qint32 (8 # payload) 1 = Some volume
           \<and> getNCC mw volume = (mw', ncc)
           \<and> handleMessage mw u (8 # payload)
               = Inr (mw', [8] @ [of_nat (length ncc)] @ concat (map bytes_of_double ncc))
           \<and> unat (of_nat (length ncc) :: byte) = length ncc
           \<and> length (concat (map bytes_of_double ncc)) = length ncc * 8
           \<and> [8] @ [of_nat (length ncc)] @ concat (map bytes_of_double ncc)
               = [8, 1, 0, 0, 0, 0, 0, 0, 0xE0, 0x3F]"
proof -
  from assms obtain volume where v: "read_qint32 (8 # payload) (Suc 0) = Some volume"
    by (cases "read_qint32 (8 # payload) (Suc 0)") (simp_all add: read_qint32_None_iff)
  from assms obtain pose where p: "read_doubles (8 # payload) 5 6 = Some pose"
    by (cases "read_doubles (8 # payload) 5 6") (simp_all add: read_doubles_None_iff)
  have "handleMessage mw u (8 # payload)
      = Inr (fst (getNCC mw volume),
             [8] @ [of_nat (length (snd (getNCC mw volume)))]
                 @ concat (map bytes_of_double (snd (getNCC mw volume))))"
    by (simp add: handleMessage_def read_opcode v p split: prod.splits)
  moreover have "snd (getNCC mw volume) = [0x3FE0000000000000]"
    by (simp add: getNCC_def)
  ultimately show ?thesis
    using v by (simp add: bytes_of_half getNCC_def)
qed

text \<open>A payload of 52 zero bytes: volume 0 and the zero pose.\<close>

theorem correlation_reply_witness:
  "52 \<le> length (replicate 52 (0 :: byte))
   \<and> handleMessage mock_constructor (0, 0) (8 # replicate 52 0)
       = Inr (logged (Call_getNCC 0) mock_constructor, [8, 1, 0, 0, 0, 0, 0, 0, 0xE0, 0x3F])"
  using correlation_reply [of "replicate 52 0" mock_constructor "(0, 0)"]
  by (auto simp: getNCC_def read_qint32_def read_bytes_def le_word_zeros)

section \<open>The image reply\<close>

lemma getImageData_4x4:
  "w_loop 4 4 0 [] =
     [255, 255, 255, 0,
      255, 255, 255, 0,
      255, 255, 255, 0,
      0, 0, 0, 255]"
  by (simp add: w_loop.simps h_loop.simps pixel_def)

lemma zero_payload_10:
  "read_qint32 (10 # replicate 56 0) (Suc 0) = Some 0"
  "read_qint32 (10 # replicate 56 0) 5 = Some 0"
  "read_doubles (10 # replicate 56 0) 9 6 = Some (replicate 6 0)"
  by (simp_all add: read_qint32_def read_double_def read_bytes_def le_word_zeros numeral_eq_Suc)

text \<open>
  C8. The opcode 10 request with volume 0, camera 0 and the zero pose, handled while the
  locals \<open>width\<close> and \<open>height\<close> hold 4 and 4, is answered with the byte \<open>0A\<close>, the
  two sizes as \<open>04 00 00 00\<close>, and 16 pixel bytes. The index tests are
  \<open>w_idx > width / 2\<close> and \<open>h_idx > height / 2\<close>, so the pixels are 255 where both
  indices are at most 2 or both are 3, and 0 elsewhere: a block of 3 by 3 and a single
  pixel, not the two 2 by 2 quadrants of a 4 by 4 image.
\<close>

theorem image_4x4_reply:
  "handleMessage mock_constructor (4, 4) (10 # replicate 56 0) =
     Inr (logged (Call_getImageData 0 0 4 4) mock_constructor,
          [10, 4, 0, 0, 0, 4, 0, 0, 0,
           255, 255, 255, 0,
           255, 255, 255, 0,
           255, 255, 255, 0,
           0, 0, 0, 255])
   \<and> snd (getImageData mock_constructor 0 0 4 4) \<noteq>
         [255, 255, 0, 0,
          255, 255, 0, 0,
          0, 0, 255, 255,
          0, 0, 255, 255]"
  by (simp add: handleMessage_def read_bytes_def zero_payload_10 getImageData_def
        getImageData_4x4 bytes_of_qint32_def le_bytes_numeral)

section \<open>Connection lifecycle\<close>

lemma emit_consistent:
  assumes "set (clientConnections s) = signals_connected s" and "emit s e = Inr s'"
  shows "set (clientConnections s') = signals_connected s'"
  using assms
  by (cases e)
     (auto simp: createNewConnection_def deleteConnection_def reading_def
           split: if_splits sum.splits)

lemma emit_keeps_live:
  assumes "c \<in> set (clientConnections s)" and "e \<noteq> Disconnected c" and "emit s e = Inr s'"
  shows "c \<in> set (clientConnections s')"
  using assms
  by (cases e)
     (auto simp: createNewConnection_def deleteConnection_def reading_def
           split: if_splits sum.splits)

lemma emit_keeps_closed:
  assumes "c \<notin> set (clientConnections s)" and "c \<notin> signals_connected s"
    and "e \<noteq> NewConnection c" and "emit s e = Inr s'"
  shows "c \<notin> set (clientConnections s') \<and> c \<notin> signals_connected s'
         \<and> replies_on c s' = replies_on c s"
  using assms
  by (cases e)
     (auto simp: createNewConnection_def deleteConnection_def reading_def replies_on_def
           split: if_splits sum.splits)

lemma emit_Disconnected:
  assumes "c \<in> signals_connected s"
  shows "emit s (Disconnected c) =
           Inr (s\<lparr>clientConnections := removeAll c (clientConnections s),
                  signals_connected := signals_connected s - {c}\<rparr>)"
  using assms by (simp add: deleteConnection_def)

lemma run_append:
  "run s (es @ fs) = (case run s es of Inl f \<Rightarrow> Inl f | Inr s' \<Rightarrow> run s' fs)"
  by (induction es arbitrary: s) (auto split: sum.splits)

lemma closings_append:
  "run s es = Inr s' \<Longrightarrow> closings c s (es @ fs) = closings c s es + closings c s' fs"
  by (induction es arbitrary: s) (auto split: sum.splits)

lemma run_consistent:
  "set (clientConnections s) = signals_connected s \<Longrightarrow> run s es = Inr s'
     \<Longrightarrow> set (clientConnections s') = signals_connected s'"
proof (induction es arbitrary: s)
  case Nil
  then show ?case by simp
next
  case (Cons e es)
  from Cons.prems(2) obtain s1 where e: "emit s e = Inr s1" and r: "run s1 es = Inr s'"
    by (auto split: sum.splits)
  from Cons.prems(1) e have "set (clientConnections s1) = signals_connected s1"
    by (rule emit_consistent)
  then show ?case using r by (rule Cons.IH)
qed

lemma run_keeps_live:
  "c \<in> set (clientConnections s) \<Longrightarrow> Disconnected c \<notin> set es \<Longrightarrow> run s es = Inr s'
     \<Longrightarrow> c \<in> set (clientConnections s') \<and> closings c s es = 0"
proof (induction es arbitrary: s)
  case Nil
  then show ?case by simp
next
  case (Cons e es)
  from Cons.prems(3) obtain s1 where e: "emit s e = Inr s1" and r: "run s1 es = Inr s'"
    by (auto split: sum.splits)
  from Cons.prems(2) have ne: "e \<noteq> Disconnected c" and rest: "Disconnected c \<notin> set es"
    by auto
  from Cons.prems(1) ne e have live: "c \<in> set (clientConnections s1)"
    by (rule emit_keeps_live)
  from Cons.IH [OF live rest r] live e show ?case
    by simp
qed

lemma run_keeps_closed:
  "c \<notin> set (clientConnections s) \<Longrightarrow> c \<notin> signals_connected s
     \<Longrightarrow> NewConnection c \<notin> set es \<Longrightarrow> run s es = Inr s'
     \<Longrightarrow> c \<notin> set (clientConnections s') \<and> c \<notin> signals_connected s'
         \<and> replies_on c s' = replies_on c s \<and> closings c s es = 0"
proof (induction es arbitrary: s)
  case Nil
  then show ?case by simp
next
  case (Cons e es)
  from Cons.prems(4) obtain s1 where e: "emit s e = Inr s1" and r: "run s1 es = Inr s'"
    by (auto split: sum.splits)
  from Cons.prems(3) have ne: "e \<noteq> NewConnection c" and rest: "NewConnection c \<notin> set es"
    by auto
  from emit_keeps_closed [OF Cons.prems(1,2) ne e]
  have c1: "c \<notin> set (clientConnections s1)" and c2: "c \<notin> signals_connected s1"
    and c3: "replies_on c s1 = replies_on c s"
    by simp_all
  from Cons.IH [OF c1 c2 rest r] c3 e Cons.prems(1) show ?case
    by simp
qed

lemma live_set_changes_only_on_accept_or_disconnect:
  assumes "emit t e = Inr t'" and "clientConnections t' \<noteq> clientConnections t"
  shows "\<exists>d. e = NewConnection d \<or> e = Disconnected d"
  using assms
  by (cases e) (auto simp: reading_def split: if_splits sum.splits)

lemma reachable_consistent:
  "run (Socket_constructor mw) es = Inr s \<Longrightarrow> set (clientConnections s) = signals_connected s"
  by (rule run_consistent [of "Socket_constructor mw"]) (simp_all add: Socket_constructor_def)

text \<open>
  C9. Take a state in which the connection \<open>c\<close> is listed and the list agrees with the
  connected signals (as in every state the constructor leads to,
  \<open>reachable_consistent\<close>), and a run in which \<open>c\<close> emits \<open>disconnected\<close> once some
  signals \<open>before\<close> have been handled, with other signals \<open>after\<close> it; \<open>c\<close> is not
  handed out again by \<open>nextPendingConnection\<close>. Then \<open>c\<close> is listed until its
  disconnect, it is not listed once \<open>deleteConnection\<close> has run nor at any later
  time, no reply is written on it after the disconnect, the run takes it out of the
  list exactly once, and a signal that changes the list is a new connection or a
  disconnect.
\<close>

theorem disconnect_closes_once:
  assumes consistent: "set (clientConnections s) = signals_connected s"
    and live: "c \<in> set (clientConnections s)"
    and fresh: "NewConnection c \<notin> set before" "NewConnection c \<notin> set after"
    and first: "Disconnected c \<notin> set before"
    and run1: "run s before = Inr s1"
    and run2: "emit s1 (Disconnected c) = Inr s2"
    and run3: "run s2 after = Inr s3"
  shows "c \<in> set (clientConnections s1)
         \<and> c \<notin> set (clientConnections s2)
         \<and> c \<notin> set (clientConnections s3)
         \<and> c \<notin> signals_connected s3
         \<and> replies_on c s3 = replies_on c s1
         \<and> closings c s (before @ Disconnected c # after) = 1
         \<and> (\<forall>t e t'. emit t e = Inr t' \<longrightarrow> clientConnections t' \<noteq> clientConnections t
               \<longrightarrow> (\<exists>d. e = NewConnection d \<or> e = Disconnected d))"
proof -
  from run_keeps_live [OF live first run1]
  have live1: "c \<in> set (clientConnections s1)" and count1: "closings c s before = 0"
    by simp_all
  from consistent run1 have "set (clientConnections s1) = signals_connected s1"
    by (rule run_consistent)
  with live1 have "c \<in> signals_connected s1" by simp
  then have s2: "s2 = s1\<lparr>clientConnections := removeAll c (clientConnections s1),
                         signals_connected := signals_connected s1 - {c}\<rparr>"
    using run2 by (simp add: deleteConnection_def)
  then have closed2: "c \<notin> set (clientConnections s2)" "c \<notin> signals_connected s2"
    and same2: "replies_on c s2 = replies_on c s1"
    by (simp_all add: replies_on_def)
  from run_keeps_closed [OF closed2 fresh(2) run3]
  have closed3: "c \<notin> set (clientConnections s3)" "c \<notin> signals_connected s3"
    and same3: "replies_on c s3 = replies_on c s2" and count3: "closings c s2 after = 0"
    by simp_all
  have "closings c s (before @ Disconnected c # after)
          = closings c s before + closings c s1 (Disconnected c # after)"
    using run1 by (rule closings_append)
  also have "closings c s1 (Disconnected c # after) = 1"
    using run2 live1 closed2(1) count3 by simp
  finally have count: "closings c s (before @ Disconnected c # after) = 1"
    using count1 by simp
  have same: "replies_on c s3 = replies_on c s1"
    using same2 same3 by simp
  have only: "\<forall>t e t'. emit t e = Inr t' \<longrightarrow> clientConnections t' \<noteq> clientConnections t
               \<longrightarrow> (\<exists>d. e = NewConnection d \<or> e = Disconnected d)"
    using live_set_changes_only_on_accept_or_disconnect by blast
  from live1 closed2(1) closed3 same count only show ?thesis
    by (intro conjI)
qed


text \<open>
  A connection is accepted, sends opcode 12 and is acknowledged, then disconnects; bytes
  that arrive on it afterwards, a \<open>readyRead\<close> and a second \<open>disconnected\<close> change
  nothing.
\<close>

theorem disconnect_closes_once_witness:
  "\<exists>s1 s2 s3.
     run (Socket_constructor mock_constructor)
       [NewConnection 0, BytesArrive 0 [12], ReadyRead 0 (0, 0)] = Inr s1
     \<and> emit s1 (Disconnected 0) = Inr s2
     \<and> run s2 [BytesArrive 0 [12], ReadyRead 0 (0, 0), Disconnected 0] = Inr s3
     \<and> clientConnections s1 = [0]
     \<and> clientConnections s3 = []
     \<and> replies_on 0 s1 = [[12]]
     \<and> replies_on 0 s3 = [[12]]
     \<and> closings 0 (Socket_constructor mock_constructor)
           ([NewConnection 0, BytesArrive 0 [12], ReadyRead 0 (0, 0)] @ Disconnected 0 #
            [BytesArrive 0 [12], ReadyRead 0 (0, 0), Disconnected 0]) = 1"
proof -
  let ?s0 = "createNewConnection (Socket_constructor mock_constructor) 0"
  let ?s1 = "\<lparr>clientConnections = [0], m_mainwindow = saveFullDRR mock_constructor,
              signals_connected = {0}, bytesAvailable = (\<lambda>c. []), written = [(0, [12])]\<rparr>"
  let ?s2 = "?s1\<lparr>clientConnections := [], signals_connected := {}\<rparr>"
  let ?s3 = "?s2\<lparr>bytesAvailable := (\<lambda>c. [])(0 := [12])\<rparr>"
  have h12: "\<And>mw u. handleMessage mw u [12] = Inr (saveFullDRR mw, [12])"
    by (simp add: handleMessage_def read_bytes_def)
  have r0: "run (Socket_constructor mock_constructor) [NewConnection 0] = Inr ?s0"
    by simp
  have r1: "run ?s0 [BytesArrive 0 [12], ReadyRead 0 (0, 0)] = Inr ?s1"
    by (simp add: Socket_constructor_def createNewConnection_def reading_def h12 fun_eq_iff)
  have r2: "emit ?s1 (Disconnected 0) = Inr ?s2"
    by (simp add: deleteConnection_def)
  have r3: "run ?s2 [BytesArrive 0 [12], ReadyRead 0 (0, 0), Disconnected 0] = Inr ?s3"
    by simp
  have consistent: "set (clientConnections ?s0) = signals_connected ?s0"
    by (simp add: Socket_constructor_def createNewConnection_def)
  have live: "0 \<in> set (clientConnections ?s0)"
    by (simp add: createNewConnection_def)
  have once: "closings 0 ?s0 ([BytesArrive 0 [12], ReadyRead 0 (0, 0)] @ Disconnected 0 #
            [BytesArrive 0 [12], ReadyRead 0 (0, 0), Disconnected 0]) = 1"
    using disconnect_closes_once [OF consistent live _ _ _ r1 r2 r3] by simp
  have "run (Socket_constructor mock_constructor)
          [NewConnection 0, BytesArrive 0 [12], ReadyRead 0 (0, 0)] = Inr ?s1"
    using r1 by simp
  moreover have "closings 0 (Socket_constructor mock_constructor)
           ([NewConnection 0, BytesArrive 0 [12], ReadyRead 0 (0, 0)] @ Disconnected 0 #
            [BytesArrive 0 [12], ReadyRead 0 (0, 0), Disconnected 0]) = 1"
    using once by (simp add: Socket_constructor_def createNewConnection_def)
  ultimately show ?thesis
    using r2 r3 by (intro exI [of _ ?s1] exI [of _ ?s2] exI [of _ ?s3]) (simp add: replies_on_def)
qed

section \<open>The pose of the mock window\<close>

lemmas mock_defs =
  setFrame_def openTrial_def load_tracking_results_def save_tracking_results_def
  loadFilterSettings_def getPose_def setPose_def setBackground_def getNCC_def saveFullDRR_def
  getImageData_def optimizeFrame_def logged_def

lemma perform_keeps_Pose: "\<not> is_setPose c \<Longrightarrow> Pose (perform c mw) = Pose mw"
  by (cases c) (simp_all add: mock_defs)

lemma fold_perform_keeps_Pose:
  "list_all (\<lambda>c. \<not> is_setPose c) cs \<Longrightarrow> Pose (fold perform cs mw) = Pose mw"
  by (induction cs arbitrary: mw) (simp_all add: perform_keeps_Pose)

lemma handleMessage_Pose_length:
  assumes "length (Pose mw) = 6" and "handleMessage mw u data = Inr (mw', reply)"
  shows "length (Pose mw') = 6"
proof (cases data)
  case Nil
  with assms(2) show ?thesis by (simp add: handleMessage_def read_bytes_def)
next
  case (Cons opcode payload)
  with assms show ?thesis
    by (auto simp: handleMessage_def read_opcode mock_defs Let_def
             split: if_splits option.splits Option.bind_splits prod.splits
             dest: read_doubles_length)
qed

text \<open>
  C10. The mock keeps one pose. \<open>getPose\<close> returns the same vector for every volume
  and frame; after \<open>setPose mw p v f\<close>, with any \<open>v\<close> and \<open>f\<close>, \<open>getPose\<close> returns
  \<open>p\<close> for every volume and frame, also after any calls of the other methods; no
  method but \<open>setPose\<close> changes \<open>Pose\<close>. The vector has six entries after the
  constructor, and a request handled by the dispatcher keeps that.
\<close>

theorem stored_pose_is_single_value:
  "snd (getPose mw v1 f1) = snd (getPose mw v2 f2)
   \<and> snd (getPose (setPose mw p v f) v' f') = p
   \<and> (\<forall>cs. list_all (\<lambda>c. \<not> is_setPose c) cs
          \<longrightarrow> snd (getPose (fold perform cs (setPose mw p v f)) v' f') = p)
   \<and> (\<forall>c. \<not> is_setPose c \<longrightarrow> Pose (perform c mw) = Pose mw)
   \<and> length (Pose mock_constructor) = 6
   \<and> (\<forall>u data mw' reply. length (Pose mw) = 6 \<longrightarrow> handleMessage mw u data = Inr (mw', reply)
          \<longrightarrow> length (Pose mw') = 6)"
proof (intro conjI allI impI)
  show "snd (getPose mw v1 f1) = snd (getPose mw v2 f2)"
    by (simp add: getPose_def)
  show "snd (getPose (setPose mw p v f) v' f') = p"
    by (simp add: getPose_def setPose_def logged_def)
  show "snd (getPose (fold perform cs (setPose mw p v f)) v' f') = p"
    if "list_all (\<lambda>c. \<not> is_setPose c) cs" for cs
    using that by (simp add: getPose_def fold_perform_keeps_Pose) (simp add: setPose_def logged_def)
  show "Pose (perform c mw) = Pose mw" if "\<not> is_setPose c" for c
    using that by (rule perform_keeps_Pose)
  show "length (Pose mock_constructor) = 6"
    by (simp add: mock_constructor_def)
  show "length (Pose mw') = 6"
    if "length (Pose mw) = 6" and "handleMessage mw u data = Inr (mw', reply)"
    for u data mw' reply
    using that by (rule handleMessage_Pose_length)
qed

text \<open>
  The constructor's window: the same pose for (0, 0) and (7, 9); a pose set for (0, 0)
  is read back for (5, 8) after \<open>setFrame\<close>, \<open>getPose\<close> and \<open>saveFullDRR\<close>.
\<close>

theorem stored_pose_is_single_value_witness:
  "snd (getPose mock_constructor 0 0) = snd (getPose mock_constructor 7 9)
   \<and> list_all (\<lambda>c. \<not> is_setPose c) [Call_setFrame 3, Call_getPose 1 1, Call_saveFullDRR]
   \<and> snd (getPose (fold perform [Call_setFrame 3, Call_getPose 1 1, Call_saveFullDRR]
                     (setPose mock_constructor [1, 2, 3, 4, 5, 6] 0 0)) 5 8) = [1, 2, 3, 4, 5, 6]
   \<and> \<not> is_setPose (Call_setFrame 3)
   \<and> Pose (perform (Call_setFrame 3) mock_constructor) = Pose mock_constructor
   \<and> length (Pose mock_constructor) = 6
   \<and> handleMessage mock_constructor (0, 0) [12] = Inr (saveFullDRR mock_constructor, [12])
   \<and> length (Pose (saveFullDRR mock_constructor)) = 6"
proof -
  note inst = stored_pose_is_single_value
    [of mock_constructor 0 0 7 9 "[1, 2, 3, 4, 5, 6]" 0 0 5 8]
  have h: "handleMessage mock_constructor (0, 0) [12] = Inr (saveFullDRR mock_constructor, [12])"
    by (simp add: handleMessage_def read_bytes_def)
  have others: "list_all (\<lambda>c. \<not> is_setPose c) [Call_setFrame 3, Call_getPose 1 1, Call_saveFullDRR]"
    by simp
  from inst have "snd (getPose mock_constructor 0 0) = snd (getPose mock_constructor 7 9)"
    by (rule conjunct1)
  moreover from inst others
  have "snd (getPose (fold perform [Call_setFrame 3, Call_getPose 1 1, Call_saveFullDRR]
                     (setPose mock_constructor [1, 2, 3, 4, 5, 6] 0 0)) 5 8) = [1, 2, 3, 4, 5, 6]"
    by blast
  moreover from inst
  have "Pose (perform (Call_setFrame 3) mock_constructor) = Pose mock_constructor"
    by (metis is_setPose.simps(2))
  moreover from inst have six: "length (Pose mock_constructor) = 6"
    by blast
  moreover from inst six h have "length (Pose (saveFullDRR mock_constructor)) = 6"
    by blast
  ultimately show ?thesis
    using h others by simp
qed

end
